theory Spec2Isabelle
  imports Complex_Main "HOL-Library.Sublist"
begin

section \<open>Python values, exceptions and the device base class\<close>

text \<open>
  The devices of \<^verbatim>\<open>examples/python\<close> exchange dynamically typed values with the
  controller: command parameters, property values, event payloads and responses. They are
  modelled by one datatype. Python floats are modelled as reals (exact arithmetic), an ISO
  timestamp string by the clock reading it was taken at.
\<close>

datatype pyval =
    VNone
  | VBool bool
  | VInt int
  | VFloat real
  | VStr string
  | VTime real
  | VList "pyval list"
  | VDict "(string \<times> pyval) list"

datatype pyerror = KeyError string | ValueError | TypeError | AttributeError | IndexError
  | ZeroDivisionError

type_synonym pydict = "string \<rightharpoonup> pyval"
type_synonym event = "string \<times> (string \<times> pyval) list"

text \<open>Truth value of a Python object, as \<^verbatim>\<open>if x:\<close> and \<^verbatim>\<open>not x\<close> test it.\<close>

fun truthy :: "pyval \<Rightarrow> bool" where
  "truthy VNone = False"
| "truthy (VBool b) = b"
| "truthy (VInt i) = (i \<noteq> 0)"
| "truthy (VFloat r) = (r \<noteq> 0)"
| "truthy (VStr s) = (s \<noteq> [])"
| "truthy (VTime t) = True"
| "truthy (VList l) = (l \<noteq> [])"
| "truthy (VDict d) = (d \<noteq> [])"

text \<open>The numeric reading of a value in a comparison (\<^verbatim>\<open>min\<close>, \<^verbatim>\<open>max\<close>); a bool is an int.\<close>

fun py_num :: "pyval \<Rightarrow> real option" where
  "py_num (VBool b) = Some (if b then 1 else 0)"
| "py_num (VInt i) = Some (real_of_int i)"
| "py_num (VFloat r) = Some r"
| "py_num _ = None"

text \<open>
  \<^verbatim>\<open>float(x)\<close>: numbers convert, a string is parsed (the parser of the Python runtime is the
  parameter \<open>parse\<close>, \<open>None\<close> where it rejects the string: ValueError), anything else is a
  TypeError.
\<close>

fun py_float :: "(string \<Rightarrow> real option) \<Rightarrow> pyval \<Rightarrow> pyerror + real" where
  "py_float parse (VBool b) = Inr (if b then 1 else 0)"
| "py_float parse (VInt i) = Inr (real_of_int i)"
| "py_float parse (VFloat r) = Inr r"
| "py_float parse (VStr s) = (case parse s of None \<Rightarrow> Inl ValueError | Some r \<Rightarrow> Inr r)"
| "py_float parse _ = Inl TypeError"

text \<open>\<^verbatim>\<open>int(x)\<close> on a float truncates toward zero.\<close>

definition py_int :: "real \<Rightarrow> int" where
  "py_int x = (if 0 \<le> x then \<lfloor>x\<rfloor> else \<lceil>x\<rceil>)"

text \<open>\<^verbatim>\<open>round(x, 2)\<close>: to two decimals, a tie going to the even neighbour.\<close>

definition round_half_even :: "real \<Rightarrow> int" where
  "round_half_even y =
     (let f = \<lfloor>y\<rfloor>; r = y - real_of_int f
      in if r < 1 / 2 then f else if 1 / 2 < r then f + 1 else if even f then f else f + 1)"

definition py_round2 :: "real \<Rightarrow> real" where
  "py_round2 x = real_of_int (round_half_even (x * 100)) / 100"

text \<open>\<^verbatim>\<open>k in x\<close>, \<^verbatim>\<open>x[k]\<close> and \<^verbatim>\<open>x.get(k, default)\<close> for a string key \<open>k\<close>.\<close>

fun py_contains :: "string \<Rightarrow> pyval \<Rightarrow> pyerror + bool" where
  "py_contains k (VDict d) = Inr (map_of d k \<noteq> None)"
| "py_contains k (VList l) = Inr (VStr k \<in> set l)"
| "py_contains k (VStr s) = Inr (sublist k s)"
| "py_contains k _ = Inl TypeError"

fun py_getitem :: "pyval \<Rightarrow> string \<Rightarrow> pyerror + pyval" where
  "py_getitem (VDict d) k = (case map_of d k of None \<Rightarrow> Inl (KeyError k) | Some v \<Rightarrow> Inr v)"
| "py_getitem _ k = Inl TypeError"

fun py_get :: "pyval \<Rightarrow> string \<Rightarrow> pyval \<Rightarrow> pyerror + pyval" where
  "py_get (VDict d) k dflt = Inr (case map_of d k of None \<Rightarrow> dflt | Some v \<Rightarrow> v)"
| "py_get _ k dflt = Inl AttributeError"

text \<open>A command or a response is a dictionary; \<^verbatim>\<open>cmd["parameters"]\<close> raises KeyError
  where the entry is absent.\<close>

definition dict_getitem :: "pydict \<Rightarrow> string \<Rightarrow> pyerror + pyval" where
  "dict_getitem m k = (case m k of None \<Rightarrow> Inl (KeyError k) | Some v \<Rightarrow> Inr v)"

section \<open>The camera of \<^verbatim>\<open>advanced_camera.py\<close>\<close>

text \<open>
  The camera runs two kinds of background threads: the temperature loop and one exposure
  process per started exposure. A thread is modelled by its program counter between two
  sleeps, the time at which it wakes, and the arguments and locals of its function. The code
  between two sleeps runs as one step at the wake time; statements take no time.
\<close>

datatype pc = U_Start | U_Sleep | E_Start | E_Loop | E_Readout | Done

record thread =
  pc :: pc
  wake :: real
  arg_time :: real
  arg_light :: pyval
  start_time :: real

record camera =
  device_id :: string
  width :: int
  height :: int
  pixel_size :: real
  bit_depth :: int
  gain :: int
  exposure_time :: real
  cooler_temp :: real
  sensor_temp :: real
  cooler_power :: int
  cooler_enabled :: pyval
  is_exposing :: bool
  image_ready :: bool
  image_data :: "nat option"
  running :: bool
  update_thread :: "nat option"
  exposure_thread :: "nat option"
  props :: pydict
  events :: "event list"
  base_started :: bool
  now :: real
  threads :: "thread list"

text \<open>
  \<open>image_data\<close> is the byte string of the last image, kept by its length (the pixels come
  from a random generator; the handlers read the length and the truth value only).
  \<open>update_thread\<close> and \<open>exposure_thread\<close> are the attributes of the same names: \<open>None\<close> or
  the index in \<open>threads\<close> of the thread object they refer to. \<open>now\<close> is the clock.
\<close>

text \<open>Modelled from the spec: \<^verbatim>\<open>DeviceBase.set_property\<close>, \<^verbatim>\<open>send_event\<close>,
  \<^verbatim>\<open>get_iso_timestamp\<close>, \<^verbatim>\<open>start\<close> and \<^verbatim>\<open>stop\<close> of the C++ base class, which is not part of
  the Python sources: a set overwrites the value stored under the name, an event is appended
  to the device's outbound sequence, the base start succeeds or not as the transport decides
  (\<open>ok\<close>), and the base stop leaves the device stopped.\<close>

definition set_property :: "string \<Rightarrow> pyval \<Rightarrow> camera \<Rightarrow> camera" where
  "set_property name v c = c\<lparr>props := (props c)(name \<mapsto> v)\<rparr>"

definition send_event :: "string \<Rightarrow> (string \<times> pyval) list \<Rightarrow> camera \<Rightarrow> camera" where
  "send_event name payload c = c\<lparr>events := events c @ [(name, payload)]\<rparr>"

definition get_iso_timestamp :: "camera \<Rightarrow> pyval" where
  "get_iso_timestamp c = VTime (now c)"

definition base_start :: "bool \<Rightarrow> camera \<Rightarrow> bool \<times> camera" where
  "base_start ok c = (if ok then (True, c\<lparr>base_started := True\<rparr>) else (False, c))"

definition base_stop :: "camera \<Rightarrow> camera" where
  "base_stop c = c\<lparr>base_started := False\<rparr>"

text \<open>\<^verbatim>\<open>AdvancedCamera.__init__\<close>.\<close>

definition init_props :: pydict where
  "init_props =
     [''width'' \<mapsto> VInt 1936, ''height'' \<mapsto> VInt 1096, ''pixel_size'' \<mapsto> VFloat 5.86,
      ''bit_depth'' \<mapsto> VInt 16, ''gain'' \<mapsto> VInt 0, ''offset'' \<mapsto> VInt 10,
      ''sensor_temperature'' \<mapsto> VFloat 20, ''cooler_temperature'' \<mapsto> VFloat 20,
      ''cooler_power'' \<mapsto> VInt 0, ''cooler_enabled'' \<mapsto> VBool False,
      ''exposure_time'' \<mapsto> VFloat 0, ''exposing'' \<mapsto> VBool False,
      ''image_ready'' \<mapsto> VBool False, ''connected'' \<mapsto> VBool False]"

definition init :: "string \<Rightarrow> camera" where
  "init dev =
     \<lparr>device_id = dev, width = 1936, height = 1096, pixel_size = 5.86, bit_depth = 16,
      gain = 0, exposure_time = 0, cooler_temp = 20, sensor_temp = 20, cooler_power = 0,
      cooler_enabled = VBool False, is_exposing = False, image_ready = False,
      image_data = None, running = False, update_thread = None, exposure_thread = None,
      props = init_props, events = [], base_started = False, now = 0, threads = []\<rparr>"

text \<open>Starting a \<^verbatim>\<open>threading.Thread\<close>: the new thread is ready at once.\<close>

definition spawn :: "pc \<Rightarrow> real \<Rightarrow> pyval \<Rightarrow> camera \<Rightarrow> camera" where
  "spawn p t l c =
     c\<lparr>threads := threads c @
        [\<lparr>pc = p, wake = now c, arg_time = t, arg_light = l, start_time = 0\<rparr>]\<rparr>"

definition is_alive :: "nat \<Rightarrow> camera \<Rightarrow> bool" where
  "is_alive i c = (i < length (threads c) \<and> pc (threads c ! i) \<noteq> Done)"

subsection \<open>Exposure control\<close>

definition start_exposure :: "real \<Rightarrow> pyval \<Rightarrow> camera \<Rightarrow> bool \<times> camera" where
  "start_exposure t is_light c =
     (if is_exposing c then (False, c)
      else
        let c1 = c\<lparr>exposure_time := t, is_exposing := True, image_ready := False\<rparr>;
            c2 = set_property ''exposing'' (VBool True) c1;
            c3 = set_property ''exposure_time'' (VFloat t) c2;
            c4 = set_property ''image_ready'' (VBool False) c3;
            c5 = spawn E_Start t is_light (c4\<lparr>exposure_thread := Some (length (threads c4))\<rparr>)
        in (True, c5))"

definition abort_exposure :: "camera \<Rightarrow> bool \<times> camera" where
  "abort_exposure c =
     (if \<not> is_exposing c then (False, c)
      else
        let c1 = c\<lparr>is_exposing := False\<rparr>;
            c2 = set_property ''exposing'' (VBool False) c1;
            c3 = send_event ''EXPOSURE_ABORTED''
                   [(''timestamp'', get_iso_timestamp c2),
                    (''exposure_time'', VFloat (exposure_time c2))] c2
        in (True, c3))"

text \<open>
  \<^verbatim>\<open>generate_image\<close> builds the pixels with numpy and PIL from random draws. That pipeline is the
  parameter \<open>gen\<close>: from the camera and the light flag it yields the length of the byte string
  it stored, or the message of the exception it raised.
\<close>

type_synonym imaging = "camera \<Rightarrow> pyval \<Rightarrow> string + nat"

definition set_thread :: "nat \<Rightarrow> thread \<Rightarrow> camera \<Rightarrow> camera" where
  "set_thread i th c = c\<lparr>threads := (threads c)[i := th]\<rparr>"

text \<open>\<^verbatim>\<open>exposure_process\<close>, from the head of its \<^verbatim>\<open>while\<close> loop to the next sleep or return.\<close>

definition exposure_loop :: "nat \<Rightarrow> thread \<Rightarrow> camera \<Rightarrow> camera" where
  "exposure_loop i th c =
     (let elapsed = now c - start_time th in
      if is_exposing c \<and> elapsed < arg_time th then
        set_thread i (th\<lparr>pc := E_Loop, wake := now c + 1 / 2\<rparr>)
          (send_event ''EXPOSURE_PROGRESS''
             [(''progress'', VFloat (elapsed / arg_time th)),
              (''elapsed'', VFloat elapsed),
              (''remaining'', VFloat (arg_time th - elapsed))] c)
      else if \<not> is_exposing c then set_thread i (th\<lparr>pc := Done\<rparr>) c
      else
        set_thread i (th\<lparr>pc := E_Readout, wake := now c + 1\<rparr>)
          (send_event ''READING_OUT'' [(''timestamp'', get_iso_timestamp c)] c))"

text \<open>The entry of \<^verbatim>\<open>exposure_process\<close>.\<close>

definition exposure_begin :: "nat \<Rightarrow> thread \<Rightarrow> camera \<Rightarrow> camera" where
  "exposure_begin i th c =
     exposure_loop i (th\<lparr>start_time := now c\<rparr>)
       (send_event ''EXPOSURE_STARTED''
          [(''timestamp'', get_iso_timestamp c), (''exposure_time'', VFloat (arg_time th))] c)"

text \<open>After the readout sleep: the image, the completion, or the \<^verbatim>\<open>except\<close> branch.\<close>

definition exposure_finish :: "imaging \<Rightarrow> nat \<Rightarrow> thread \<Rightarrow> camera \<Rightarrow> camera" where
  "exposure_finish gen i th c =
     (case gen c (arg_light th) of
        Inr n \<Rightarrow>
          let c1 = c\<lparr>image_data := Some n\<rparr>;
              c2 = c1\<lparr>is_exposing := False, image_ready := True\<rparr>;
              c3 = set_property ''exposing'' (VBool False) c2;
              c4 = set_property ''image_ready'' (VBool True) c3;
              c5 = send_event ''EXPOSURE_COMPLETE''
                     [(''timestamp'', get_iso_timestamp c4),
                      (''exposure_time'', VFloat (arg_time th)),
                      (''is_light'', arg_light th),
                      (''image_size'',
                         VDict [(''width'', VInt (width c4)), (''height'', VInt (height c4))])] c4
          in set_thread i (th\<lparr>pc := Done\<rparr>) c5
      | Inl msg \<Rightarrow>
          let c1 = c\<lparr>is_exposing := False\<rparr>;
              c2 = set_property ''exposing'' (VBool False) c1;
              c3 = send_event ''EXPOSURE_ERROR''
                     [(''timestamp'', get_iso_timestamp c2), (''error'', VStr msg)] c2
          in set_thread i (th\<lparr>pc := Done\<rparr>) c3)"

subsection \<open>Cooling\<close>

text \<open>The body of the \<^verbatim>\<open>while\<close> loop of \<^verbatim>\<open>update_loop\<close> after its sleep: one cooling tick.\<close>

definition update_body :: "camera \<Rightarrow> camera" where
  "update_body c =
     (let c1 =
        (if truthy (cooler_enabled c) then
           let temp_diff = cooler_temp c - sensor_temp c in
           if \<bar>temp_diff\<bar> > 1 / 10 then
             let p = min 100 (max 0 (py_int (\<bar>temp_diff\<bar> * 10))) in
             c\<lparr>cooler_power := p,
               sensor_temp := sensor_temp c + sgn temp_diff * real_of_int p * (1 / 100)\<rparr>
           else c\<lparr>cooler_power := 10, sensor_temp := cooler_temp c\<rparr>
         else
           let c0 = c\<lparr>cooler_power := 0\<rparr>; ambient_temp = 20 in
           if \<bar>sensor_temp c0 - ambient_temp\<bar> > 1 / 10 then
             c0\<lparr>sensor_temp := sensor_temp c0 + (ambient_temp - sensor_temp c0) * (5 / 100)\<rparr>
           else c0);
          c2 = set_property ''sensor_temperature'' (VFloat (py_round2 (sensor_temp c1))) c1
      in set_property ''cooler_power'' (VInt (cooler_power c2)) c2)"

text \<open>\<^verbatim>\<open>update_loop\<close>: the test of \<^verbatim>\<open>self.running\<close>, then the sleep of one time unit.\<close>

definition update_wait :: "nat \<Rightarrow> thread \<Rightarrow> camera \<Rightarrow> camera" where
  "update_wait i th c =
     (if running c then set_thread i (th\<lparr>pc := U_Sleep, wake := now c + 1\<rparr>) c
      else set_thread i (th\<lparr>pc := Done\<rparr>) c)"

subsection \<open>The scheduler\<close>

text \<open>A thread runs from one sleep to the next at its wake time.\<close>

definition thread_step :: "imaging \<Rightarrow> nat \<Rightarrow> camera \<Rightarrow> camera" where
  "thread_step gen i c =
     (let th = threads c ! i; c0 = c\<lparr>now := max (now c) (wake th)\<rparr> in
      case pc th of
        U_Start \<Rightarrow> update_wait i th c0
      | U_Sleep \<Rightarrow> update_wait i th (update_body c0)
      | E_Start \<Rightarrow> exposure_begin i th c0
      | E_Loop \<Rightarrow> exposure_loop i th c0
      | E_Readout \<Rightarrow> exposure_finish gen i th c0
      | Done \<Rightarrow> c0)"

definition runnable :: "real \<Rightarrow> thread \<Rightarrow> bool" where
  "runnable T th = (pc th \<noteq> Done \<and> wake th \<le> T)"

fun least_wake :: "thread list \<Rightarrow> nat \<Rightarrow> nat list \<Rightarrow> nat" where
  "least_wake ths b [] = b"
| "least_wake ths b (j # js) =
     least_wake ths (if wake (ths ! j) < wake (ths ! b) then j else b) js"

text \<open>The thread to run next before time \<open>T\<close>: the earliest wake time, the oldest thread on
  a tie.\<close>

definition next_thread :: "real \<Rightarrow> thread list \<Rightarrow> nat option" where
  "next_thread T ths =
     (case filter (\<lambda>i. runnable T (ths ! i)) [0..<length ths] of
        [] \<Rightarrow> None
      | i # js \<Rightarrow> Some (least_wake ths i js))"

definition rank :: "real \<Rightarrow> thread \<Rightarrow> nat" where
  "rank T th = (if runnable T th then nat \<lfloor>(T - wake th) * 2\<rfloor> + 1 else 0)"

definition joined :: "nat option \<Rightarrow> camera \<Rightarrow> bool" where
  "joined tgt c = (case tgt of None \<Rightarrow> False | Some j \<Rightarrow> \<not> is_alive j c)"

text \<open>Every step of a thread ends the thread or moves its wake time by half a time unit
  at least, which bounds the steps taken before a deadline.\<close>

lemma least_wake_mem: "least_wake ths b js \<in> set (b # js)"
  by (induction js arbitrary: b) auto

lemma next_thread_Some:
  assumes "next_thread T ths = Some i"
  shows "i < length ths \<and> runnable T (ths ! i)"
proof -
  obtain b js where f: "filter (\<lambda>i. runnable T (ths ! i)) [0..<length ths] = b # js"
    and i: "i = least_wake ths b js"
    using assms by (auto simp: next_thread_def split: list.splits)
  have "i \<in> set (filter (\<lambda>i. runnable T (ths ! i)) [0..<length ths])"
    unfolding f i by (rule least_wake_mem)
  then show ?thesis by auto
qed

lemma rank_less:
  assumes "runnable T th" and "pc th' = Done \<or> wake th + 1 / 2 \<le> wake th'"
  shows "rank T th' < rank T th"
proof (cases "runnable T th'")
  case False
  then show ?thesis using assms(1) by (simp add: rank_def)
next
  case True
  then have w: "wake th + 1 / 2 \<le> wake th'" "wake th' \<le> T" using assms(2) by (auto simp: runnable_def)
  define a where "a = \<lfloor>(T - wake th') * 2\<rfloor>"
  define b where "b = \<lfloor>(T - wake th) * 2\<rfloor>"
  have "(T - wake th') * 2 \<le> (T - wake th) * 2 - 1" using w by simp
  then have "a \<le> \<lfloor>(T - wake th) * 2 - 1\<rfloor>" unfolding a_def by (rule floor_mono)
  also have "\<dots> = b - 1" unfolding b_def by linarith
  finally have "a \<le> b - 1" .
  moreover have "0 \<le> a" unfolding a_def using w by simp
  ultimately have "nat a + 1 < nat b + 1" by linarith
  then show ?thesis using True assms(1) unfolding rank_def a_def b_def by simp
qed

lemma thread_step_threads:
  assumes "i < length (threads c)" and "runnable T (threads c ! i)"
  shows "\<exists>th'. threads (thread_step gen i c) = (threads c)[i := th'] \<and>
           (pc th' = Done \<or> wake (threads c ! i) + 1 / 2 \<le> wake th')"
proof (cases "pc (threads c ! i)")
  case U_Start
  then show ?thesis
    by (auto simp: thread_step_def update_wait_def set_thread_def Let_def)
next
  case U_Sleep
  then show ?thesis
    by (auto simp: thread_step_def update_wait_def update_body_def set_property_def set_thread_def Let_def)
next
  case E_Start
  then show ?thesis
    by (auto simp: thread_step_def exposure_begin_def exposure_loop_def send_event_def set_thread_def Let_def)
next
  case E_Loop
  then show ?thesis
    by (auto simp: thread_step_def exposure_loop_def send_event_def set_thread_def Let_def)
next
  case E_Readout
  then show ?thesis
    by (auto simp: thread_step_def exposure_finish_def send_event_def set_property_def set_thread_def Let_def split: sum.splits)
next
  case Done
  then show ?thesis using assms by (simp add: runnable_def)
qed

lemma sum_list_update_less:
  fixes xs :: "nat list"
  assumes "i < length xs" and "y < xs ! i"
  shows "sum_list (xs[i := y]) < sum_list xs"
proof -
  have "xs ! i \<le> sum_list xs" using assms(1) by (intro member_le_sum_list) simp_all
  then show ?thesis using assms by (simp add: sum_list_update)
qed

lemma run_measure:
  assumes "next_thread T (threads c) = Some i"
  shows "sum_list (map (rank T) (threads (thread_step gen i c))) < sum_list (map (rank T) (threads c))"
proof -
  from next_thread_Some [OF assms] have i: "i < length (threads c)" and r: "runnable T (threads c ! i)"
    by auto
  from thread_step_threads [OF i r] obtain th' where
    t: "threads (thread_step gen i c) = (threads c)[i := th']"
    and w: "pc th' = Done \<or> wake (threads c ! i) + 1 / 2 \<le> wake th'" by blast
  have "rank T th' < rank T (threads c ! i)" using r w by (rule rank_less)
  then have "sum_list ((map (rank T) (threads c))[i := rank T th']) < sum_list (map (rank T) (threads c))"
    using i by (intro sum_list_update_less) auto
  then show ?thesis by (simp add: t map_update)
qed

text \<open>
  The scheduler: until the joined thread \<open>tgt\<close> has ended (when there is one) or no thread
  wakes before \<open>T\<close>, run the next thread. \<^verbatim>\<open>time.sleep(d)\<close> of the caller is
  \<open>run gen None (now c + d)\<close>, \<^verbatim>\<open>thread.join(d)\<close> is \<open>run gen (Some i) (now c + d)\<close>.
\<close>

function run :: "imaging \<Rightarrow> nat option \<Rightarrow> real \<Rightarrow> camera \<Rightarrow> camera" where
  "run gen tgt T c =
     (if joined tgt c then c
      else case next_thread T (threads c) of
             None \<Rightarrow> c\<lparr>now := max (now c) T\<rparr>
           | Some i \<Rightarrow> run gen tgt T (thread_step gen i c))"
  by pat_completeness auto
termination
  by (relation "measure (\<lambda>(gen, tgt, T, c). sum_list (map (rank T) (threads c)))")
     (auto intro: run_measure)

declare run.simps [simp del]


definition sleep :: "imaging \<Rightarrow> real \<Rightarrow> camera \<Rightarrow> camera" where
  "sleep gen d c = run gen None (now c + d) c"

definition join :: "imaging \<Rightarrow> nat \<Rightarrow> real \<Rightarrow> camera \<Rightarrow> camera" where
  "join gen i d c = run gen (Some i) (now c + d) c"

subsection \<open>Lifecycle\<close>

definition start :: "bool \<Rightarrow> camera \<Rightarrow> bool \<times> camera" where
  "start ok c =
     (case base_start ok c of
        (True, c1) \<Rightarrow>
          let c2 = set_property ''connected'' (VBool True) (c1\<lparr>running := True\<rparr>);
              c3 = spawn U_Start 0 VNone (c2\<lparr>update_thread := Some (length (threads c2))\<rparr>)
          in (True, c3)
      | (False, c1) \<Rightarrow> (False, c1))"

text \<open>A call returns a value or raises; the state it leaves behind is kept in both cases.\<close>

datatype 'a outcome = Returned 'a | Raised pyerror

text \<open>\<^verbatim>\<open>stop\<close> has no \<^verbatim>\<open>return\<close> and no \<^verbatim>\<open>raise\<close>: it returns \<^verbatim>\<open>None\<close>. Each join waits two time
  units at most, and whether the thread has ended by then is not looked at.\<close>

definition stop :: "imaging \<Rightarrow> camera \<Rightarrow> unit outcome \<times> camera" where
  "stop gen c =
     (let c1 = c\<lparr>running := False\<rparr>;
          c2 = (case update_thread c1 of
                  Some i \<Rightarrow> if is_alive i c1 then join gen i 2 c1 else c1
                | None \<Rightarrow> c1);
          c3 = (case exposure_thread c2 of
                  Some i \<Rightarrow> if is_alive i c2 then join gen i 2 c2 else c2
                | None \<Rightarrow> c2);
          c4 = set_property ''connected'' (VBool False) c3
      in (Returned (), base_stop c4))"

subsection \<open>Cooler control and the command handlers\<close>

definition set_cooler :: "pyval \<Rightarrow> pyval \<Rightarrow> camera \<Rightarrow> bool outcome \<times> camera" where
  "set_cooler enabled temperature c =
     (let old_enabled = cooler_enabled c;
          old_temp = cooler_temp c;
          c1 = c\<lparr>cooler_enabled := enabled\<rparr>
      in if temperature \<noteq> VNone \<and> py_num temperature = None then (Raised TypeError, c1)
         else
           let c2 = (case py_num temperature of
                       None \<Rightarrow> c1
                     | Some t \<Rightarrow> c1\<lparr>cooler_temp := max (- 30) (min 50 t)\<rparr>);
               c3 = set_property ''cooler_enabled'' enabled c2;
               c4 = set_property ''cooler_temperature'' (VFloat (cooler_temp c3)) c3;
               c5 = send_event ''COOLER_CHANGED''
                      [(''timestamp'', get_iso_timestamp c4),
                       (''enabled'', VDict [(''current'', enabled), (''previous'', old_enabled)]),
                       (''temperature'',
                          VDict [(''current'', VFloat (cooler_temp c4)),
                                 (''previous'', VFloat old_temp)])] c4
           in (Returned True, c5))"

definition error_response :: "pydict \<Rightarrow> string \<Rightarrow> pydict" where
  "error_response response msg =
     response(''status'' \<mapsto> VStr ''ERROR'', ''details'' \<mapsto> VDict [(''message'', VStr msg)])"

definition success_response :: "pydict \<Rightarrow> (string \<times> pyval) list \<Rightarrow> pydict" where
  "success_response response details =
     response(''status'' \<mapsto> VStr ''SUCCESS'', ''details'' \<mapsto> VDict details)"

text \<open>A handler gets the command and the response dictionary, which it fills in. The
  result is how the handler ended, the response and the camera.\<close>

type_synonym handled = "unit outcome \<times> pydict \<times> camera"

definition handle_start_exposure ::
  "(string \<Rightarrow> real option) \<Rightarrow> pydict \<Rightarrow> pydict \<Rightarrow> camera \<Rightarrow> handled" where
  "handle_start_exposure parse cmd response c =
     (case dict_getitem cmd ''parameters'' of
        Inl e \<Rightarrow> (Raised e, response, c)
      | Inr params \<Rightarrow>
     (case py_contains ''duration'' params of
        Inl e \<Rightarrow> (Raised e, response, c)
      | Inr present \<Rightarrow>
     if \<not> present then
       (Returned (), error_response response ''Missing required parameter: duration'', c)
     else
     (case py_getitem params ''duration'' of
        Inl e \<Rightarrow> (Raised e, response, c)
      | Inr d \<Rightarrow>
     (case py_float parse d of
        Inl e \<Rightarrow> (Raised e, response, c)
      | Inr duration \<Rightarrow>
     (case py_get params ''light'' (VBool True) of
        Inl e \<Rightarrow> (Raised e, response, c)
      | Inr is_light \<Rightarrow>
     (case start_exposure duration is_light c of
        (True, c1) \<Rightarrow>
          (Returned (),
           success_response response
             [(''exposure_time'', VFloat duration),
              (''started_at'', get_iso_timestamp c1),
              (''estimated_completion'', get_iso_timestamp c1)], c1)
      | (False, c1) \<Rightarrow>
          (Returned (),
           error_response response ''Failed to start exposure, camera busy'', c1)))))))"

definition handle_abort_exposure :: "pydict \<Rightarrow> pydict \<Rightarrow> camera \<Rightarrow> handled" where
  "handle_abort_exposure cmd response c =
     (case abort_exposure c of
        (True, c1) \<Rightarrow>
          (Returned (),
           success_response response [(''message'', VStr ''Exposure aborted successfully'')],
           c1)
      | (False, c1) \<Rightarrow>
          (Returned (), error_response response ''No exposure in progress to abort'', c1))"

definition handle_set_cooler :: "pydict \<Rightarrow> pydict \<Rightarrow> camera \<Rightarrow> handled" where
  "handle_set_cooler cmd response c =
     (case dict_getitem cmd ''parameters'' of
        Inl e \<Rightarrow> (Raised e, response, c)
      | Inr params \<Rightarrow>
     (case py_contains ''enabled'' params of
        Inl e \<Rightarrow> (Raised e, response, c)
      | Inr present \<Rightarrow>
     if \<not> present then
       (Returned (), error_response response ''Missing required parameter: enabled'', c)
     else
     (case py_getitem params ''enabled'' of
        Inl e \<Rightarrow> (Raised e, response, c)
      | Inr enabled \<Rightarrow>
     (case py_get params ''temperature'' VNone of
        Inl e \<Rightarrow> (Raised e, response, c)
      | Inr temperature \<Rightarrow>
     (case set_cooler enabled temperature c of
        (Raised e, c1) \<Rightarrow> (Raised e, response, c1)
      | (Returned True, c1) \<Rightarrow>
          (Returned (),
           success_response response
             [(''cooler_enabled'', enabled),
              (''cooler_temperature'', VFloat (cooler_temp c1)),
              (''sensor_temperature'', VFloat (sensor_temp c1))], c1)
      | (Returned False, c1) \<Rightarrow>
          (Returned (), error_response response ''Failed to set cooler'', c1))))))"

definition handle_get_image :: "pydict \<Rightarrow> pydict \<Rightarrow> camera \<Rightarrow> handled" where
  "handle_get_image cmd response c =
     (case (if image_ready c then image_data c else None) of
        None \<Rightarrow> (Returned (), error_response response ''No image available'', c)
      | Some n \<Rightarrow>
          if n = 0 then (Returned (), error_response response ''No image available'', c)
          else
            (Returned (),
             success_response response
               [(''image_ready'', VBool True),
                (''width'', VInt (width c)),
                (''height'', VInt (height c)),
                (''bit_depth'', VInt (bit_depth c)),
                (''size_bytes'', VInt (int n)),
                (''download_url'', VStr (''http://server/images/'' @ device_id c @ ''/latest'')),
                (''metadata'',
                   VDict [(''exposure_time'', VFloat (exposure_time c)),
                          (''gain'', VInt (gain c)),
                          (''temperature'', VFloat (sensor_temp c)),
                          (''timestamp'', get_iso_timestamp c)])], c))"

subsection \<open>Executions\<close>

text \<open>What a client of the camera can do: call a method, send a command, or let time pass.
  The calls come from one thread, so the exposure lock never blocks.\<close>

datatype action =
    Start bool
  | Stop
  | Start_Exposure real pyval
  | Abort_Exposure
  | Set_Cooler pyval pyval
  | Cmd_Start_Exposure pydict pydict
  | Cmd_Abort_Exposure pydict pydict
  | Cmd_Set_Cooler pydict pydict
  | Cmd_Get_Image pydict pydict
  | Sleep real

fun exec :: "imaging \<Rightarrow> (string \<Rightarrow> real option) \<Rightarrow> action \<Rightarrow> camera \<Rightarrow> camera" where
  "exec gen parse (Start ok) c = snd (start ok c)"
| "exec gen parse Stop c = snd (stop gen c)"
| "exec gen parse (Start_Exposure t l) c = snd (start_exposure t l c)"
| "exec gen parse Abort_Exposure c = snd (abort_exposure c)"
| "exec gen parse (Set_Cooler e t) c = snd (set_cooler e t c)"
| "exec gen parse (Cmd_Start_Exposure cmd r) c = snd (snd (handle_start_exposure parse cmd r c))"
| "exec gen parse (Cmd_Abort_Exposure cmd r) c = snd (snd (handle_abort_exposure cmd r c))"
| "exec gen parse (Cmd_Set_Cooler cmd r) c = snd (snd (handle_set_cooler cmd r c))"
| "exec gen parse (Cmd_Get_Image cmd r) c = snd (snd (handle_get_image cmd r c))"
| "exec gen parse (Sleep d) c = (if d < 0 then c else sleep gen d c)"

fun execs :: "imaging \<Rightarrow> (string \<Rightarrow> real option) \<Rightarrow> action list \<Rightarrow> camera \<Rightarrow> camera" where
  "execs gen parse [] c = c"
| "execs gen parse (a # as) c = execs gen parse as (exec gen parse a c)"

text \<open>The states a camera can be in: those some sequence of actions leads to from a new
  camera.\<close>

definition reachable :: "imaging \<Rightarrow> (string \<Rightarrow> real option) \<Rightarrow> camera \<Rightarrow> bool" where
  "reachable gen parse c = (\<exists>dev as. c = execs gen parse as (init dev))"

text \<open>An imaging pipeline that succeeds (two bytes a pixel) and a parser that reads no
  string, for concrete runs.\<close>

definition gen_ok :: imaging where
  "gen_ok c l = Inr (nat (2 * height c * width c))"

definition parse_none :: "string \<Rightarrow> real option" where
  "parse_none s = None"

section \<open>The guider of \<^verbatim>\<open>guider_example.py\<close>\<close>

record guider =
  dither_sequence :: "real list"
  dither_index :: int
  dither_calls :: "(real \<times> bool) list"

text \<open>Modelled from the spec: \<^verbatim>\<open>PyGuider.dither\<close> of the C++ base class, which is not part of
  the Python sources: the offset is applied as a momentary perturbation; the model records
  the call.\<close>

definition dither :: "real \<Rightarrow> bool \<Rightarrow> guider \<Rightarrow> guider" where
  "dither amount settle g = g\<lparr>dither_calls := dither_calls g @ [(amount, settle)]\<rparr>"

definition PiGuider_init :: guider where
  "PiGuider_init =
     \<lparr>dither_sequence = [3 / 2, 2, 5 / 2, 2, 3 / 2], dither_index = 0, dither_calls = []\<rparr>"

text \<open>\<^verbatim>\<open>xs[i]\<close> on a list: a negative index counts from the end, out of range raises.\<close>

definition list_getitem :: "'a list \<Rightarrow> int \<Rightarrow> pyerror + 'a" where
  "list_getitem xs i =
     (if 0 \<le> i \<and> i < int (length xs) then Inr (xs ! nat i)
      else if i < 0 \<and> - int (length xs) \<le> i then Inr (xs ! nat (int (length xs) + i))
      else Inl IndexError)"

text \<open>\<^verbatim>\<open>auto_dither\<close>; the result also names the index it read the amount at.\<close>

definition auto_dither :: "guider \<Rightarrow> int outcome \<times> guider" where
  "auto_dither g =
     (case list_getitem (dither_sequence g) (dither_index g) of
        Inl e \<Rightarrow> (Raised e, g)
      | Inr amount \<Rightarrow>
          if length (dither_sequence g) = 0 then (Raised ZeroDivisionError, g)
          else
            let used = dither_index g;
                g1 = g\<lparr>dither_index := (dither_index g + 1) mod int (length (dither_sequence g))\<rparr>
            in (Returned used, dither amount True g1))"

text \<open>Consecutive calls of \<^verbatim>\<open>auto_dither\<close>: the indices read, until a call raises.\<close>

fun dither_run :: "nat \<Rightarrow> guider \<Rightarrow> int list \<times> guider" where
  "dither_run 0 g = ([], g)"
| "dither_run (Suc n) g =
     (case auto_dither g of
        (Raised e, g1) \<Rightarrow> ([], g1)
      | (Returned i, g1) \<Rightarrow> (case dither_run n g1 of (is, g2) \<Rightarrow> (i # is, g2)))"

section \<open>The switch of \<^verbatim>\<open>custom_switch.py\<close>\<close>







section \<open>The telescope of \<^verbatim>\<open>custom_telescope.py\<close>\<close>

record telescope =
  tel_props :: pydict
  tel_events :: "event list"
  tel_now :: real

text \<open>Modelled from the spec: \<^verbatim>\<open>get_property\<close> of the C++ base class, which is not part of the
  Python sources: the current value, or a "not found" error.\<close>

definition get_property :: "string \<Rightarrow> telescope \<Rightarrow> pyerror + pyval" where
  "get_property name t = dict_getitem (tel_props t) name"

type_synonym tel_handled = "unit outcome \<times> pydict \<times> telescope"

text \<open>\<^verbatim>\<open>handle_calculate_field\<close>; \<open>r1\<close> and \<open>r2\<close> are its two random draws.\<close>

definition handle_calculate_field ::
  "real \<Rightarrow> real \<Rightarrow> pydict \<Rightarrow> pydict \<Rightarrow> telescope \<Rightarrow> tel_handled" where
  "handle_calculate_field r1 r2 cmd response t =
     (case dict_getitem cmd ''parameters'' of
        Inl e \<Rightarrow> (Raised e, response, t)
      | Inr params \<Rightarrow>
     (case py_get params ''fov_width'' (VFloat 1) of
        Inl e \<Rightarrow> (Raised e, response, t)
      | Inr fov_width \<Rightarrow>
     (case py_get params ''fov_height'' (VFloat (3 / 4)) of
        Inl e \<Rightarrow> (Raised e, response, t)
      | Inr fov_height \<Rightarrow>
     (case get_property ''ra'' t of
        Inl e \<Rightarrow> (Raised e, response, t)
      | Inr ra_prop \<Rightarrow>
     (case get_property ''dec'' t of
        Inl e \<Rightarrow> (Raised e, response, t)
      | Inr dec_prop \<Rightarrow>
     (case (py_num fov_width, py_num fov_height) of
        (Some w, Some h) \<Rightarrow>
          let star_density = 100;
              field_area = w * h;
              star_count = py_int (field_area * star_density * (1 + (2 / 10) * r1));
              details =
                [(''field_center'', VDict [(''ra'', ra_prop), (''dec'', dec_prop)]),
                 (''field_size'', VDict [(''width'', fov_width), (''height'', fov_height)]),
                 (''star_count'', VInt star_count),
                 (''limiting_magnitude'', VFloat (145 / 10 + (5 / 10) * r2)),
                 (''calculation_time'', VTime (tel_now t))]
          in (Returned (), success_response response details,
              t\<lparr>tel_events := tel_events t @ [(''FIELD_CALCULATED'', details)]\<rparr>)
      | _ \<Rightarrow> (Raised TypeError, response, t)))))))"

text \<open>\<^verbatim>\<open>handle_custom_command\<close>, the other handler of the telescope. It tests
  \<^verbatim>\<open>"parameters" not in cmd or not cmd["parameters"]\<close> before it reads the parameters.
  \<open>fmt\<close> is the text of a value in an f-string.\<close>

definition parameters_missing :: "pydict \<Rightarrow> bool" where
  "parameters_missing cmd = (case cmd ''parameters'' of None \<Rightarrow> True | Some v \<Rightarrow> \<not> truthy v)"

definition handle_custom_command ::
  "(pyval \<Rightarrow> string) \<Rightarrow> pydict \<Rightarrow> pydict \<Rightarrow> telescope \<Rightarrow> tel_handled" where
  "handle_custom_command fmt cmd response t =
     (if parameters_missing cmd then
        (Returned (), error_response response ''Missing parameters'', t)
      else
     (case dict_getitem cmd ''parameters'' of
        Inl e \<Rightarrow> (Raised e, response, t)
      | Inr params \<Rightarrow>
     (case py_get params ''operation'' (VStr []) of
        Inl e \<Rightarrow> (Raised e, response, t)
      | Inr operation \<Rightarrow>
     if operation = VStr ''ROTATE'' then
       (case (py_get params ''angle'' (VInt 0), py_get params ''axis'' (VStr ''RA'')) of
          (Inr angle, Inr axis) \<Rightarrow>
            (Returned (),
             success_response response
               [(''message'',
                   VStr (''Rotated '' @ fmt angle @ '' degrees around '' @ fmt axis @ '' axis'')),
                (''executionTime'', VTime (tel_now t))],
             t\<lparr>tel_events := tel_events t @
                 [(''CUSTOM_OPERATION'',
                   [(''operation'', VStr ''ROTATE''), (''angle'', angle), (''axis'', axis),
                    (''status'', VStr ''COMPLETED'')])]\<rparr>)
        | (Inl e, _) \<Rightarrow> (Raised e, response, t)
        | (_, Inl e) \<Rightarrow> (Raised e, response, t))
     else
       (Returned (), error_response response (''Unknown operation: '' @ fmt operation), t))))"

section \<open>Running the model\<close>

lemma run_joined: "joined tgt c \<Longrightarrow> run gen tgt T c = c"
  by (simp add: run.simps)

lemma run_idle:
  "\<not> joined tgt c \<Longrightarrow> next_thread T (threads c) = None \<Longrightarrow>
   run gen tgt T c = c\<lparr>now := max (now c) T\<rparr>"
  by (simp add: run.simps)

lemma run_next:
  "\<not> joined tgt c \<Longrightarrow> next_thread T (threads c) = Some i \<Longrightarrow>
   run gen tgt T c = run gen tgt T (thread_step gen i c)"
  by (simp add: run.simps)

lemmas evals =
  sleep_def join_def init_def init_props_def start_exposure_def abort_exposure_def spawn_def
  set_property_def send_event_def get_iso_timestamp_def Let_def thread_step_def
  exposure_begin_def exposure_loop_def exposure_finish_def set_thread_def update_wait_def
  update_body_def next_thread_def runnable_def joined_def is_alive_def gen_ok_def
  run_joined run_idle run_next

section \<open>Invariants of executions\<close>

text \<open>A property of the camera that every step of a thread, every move of the clock and
  every method keeps, holds along every execution.\<close>

lemma run_invariant:
  assumes "P c"
    and step: "\<And>i c. P c \<Longrightarrow> P (thread_step gen i c)"
    and clock: "\<And>t c. P c \<Longrightarrow> P (c\<lparr>now := t\<rparr>)"
  shows "P (run gen tgt T c)"
  using assms
proof (induction gen tgt T c rule: run.induct)
  case (1 gen tgt T c)
  note step = "1.prems"(2) and clock = "1.prems"(3)
  show ?case
  proof (cases "joined tgt c")
    case True
    then show ?thesis using "1.prems" by (simp add: run_joined)
  next
    case False
    show ?thesis
    proof (cases "next_thread T (threads c)")
      case None
      then show ?thesis using False "1.prems"(1) by (simp add: run_idle clock)
    next
      case (Some i)
      have "P (thread_step gen i c)" using "1.prems"(1) by (rule step)
      then have "P (run gen tgt T (thread_step gen i c))"
        using "1.IH" [OF False Some] step clock by blast
      then show ?thesis using False Some by (simp add: run_next)
    qed
  qed
qed

lemma handle_start_exposure_state:
  "snd (snd (handle_start_exposure parse cmd r c)) = c \<or>
   (\<exists>t l. snd (snd (handle_start_exposure parse cmd r c)) = snd (start_exposure t l c))"
  by (auto simp: handle_start_exposure_def split: sum.splits prod.splits bool.splits)
     (metis snd_conv)+

lemma handle_abort_exposure_state:
  "snd (snd (handle_abort_exposure cmd r c)) = snd (abort_exposure c)"
  by (simp add: handle_abort_exposure_def split: prod.splits bool.splits)

lemma handle_set_cooler_state:
  "snd (snd (handle_set_cooler cmd r c)) = c \<or>
   (\<exists>e t. snd (snd (handle_set_cooler cmd r c)) = snd (set_cooler e t c))"
  by (auto simp: handle_set_cooler_def split: sum.splits prod.splits bool.splits outcome.splits)
     (metis snd_conv)+

lemma handle_get_image_state: "snd (snd (handle_get_image cmd r c)) = c"
  by (auto simp: handle_get_image_def split: option.splits)

lemma exec_invariant:
  assumes "P c"
    and step: "\<And>i c. P c \<Longrightarrow> P (thread_step gen i c)"
    and clock: "\<And>t c. P c \<Longrightarrow> P (c\<lparr>now := t\<rparr>)"
    and starts: "\<And>ok c. P c \<Longrightarrow> P (snd (start ok c))"
    and halt: "\<And>c. P c \<Longrightarrow> P (c\<lparr>running := False\<rparr>)"
    and closes: "\<And>c. P c \<Longrightarrow> P (base_stop (set_property ''connected'' (VBool False) c))"
    and exposes: "\<And>t l c. P c \<Longrightarrow> P (snd (start_exposure t l c))"
    and aborts: "\<And>c. P c \<Longrightarrow> P (snd (abort_exposure c))"
    and cools: "\<And>e t c. P c \<Longrightarrow> P (snd (set_cooler e t c))"
  shows "P (exec gen parse a c)"
proof (cases a)
  case (Start ok)
  then show ?thesis using assms(1) by (simp add: starts)
next
  case Stop
  have r: "P (join gen i d c')" if "P c'" for i d c'
    unfolding join_def using that step clock by (rule run_invariant)
  define c1 where "c1 = c\<lparr>running := False\<rparr>"
  define c2 where "c2 = (case update_thread c1 of
                  Some i \<Rightarrow> if is_alive i c1 then join gen i 2 c1 else c1
                | None \<Rightarrow> c1)"
  define c3 where "c3 = (case exposure_thread c2 of
                  Some i \<Rightarrow> if is_alive i c2 then join gen i 2 c2 else c2
                | None \<Rightarrow> c2)"
  have "P c1" unfolding c1_def using assms(1) by (rule halt)
  then have "P c2" unfolding c2_def by (auto split: option.splits intro: r)
  then have "P c3" unfolding c3_def by (auto split: option.splits intro: r)
  then have "P (base_stop (set_property ''connected'' (VBool False) c3))" by (rule closes)
  moreover have "snd (stop gen c) = base_stop (set_property ''connected'' (VBool False) c3)"
    unfolding c3_def c2_def c1_def by (simp add: stop_def Let_def)
  ultimately have "P (snd (stop gen c))" by simp
  then show ?thesis using Stop by simp
next
  case (Start_Exposure t l)
  then show ?thesis using assms(1) by (simp add: exposes)
next
  case Abort_Exposure
  then show ?thesis using assms(1) by (simp add: aborts)
next
  case (Set_Cooler e t)
  then show ?thesis using assms(1) by (simp add: cools)
next
  case (Cmd_Start_Exposure cmd r)
  then show ?thesis
    using handle_start_exposure_state [of parse cmd r c] assms(1) by (auto simp: exposes)
next
  case (Cmd_Abort_Exposure cmd r)
  then show ?thesis using assms(1) by (simp add: handle_abort_exposure_state aborts)
next
  case (Cmd_Set_Cooler cmd r)
  then show ?thesis
    using handle_set_cooler_state [of cmd r c] assms(1) by (auto simp: cools)
next
  case (Cmd_Get_Image cmd r)
  then show ?thesis using assms(1) by (simp add: handle_get_image_state)
next
  case (Sleep d)
  have "P (run gen None (now c + d) c)"
    using assms(1) step clock by (rule run_invariant)
  then show ?thesis using Sleep assms(1) by (simp add: sleep_def)
qed

lemma execs_invariant:
  assumes "P c"
    and "\<And>i c. P c \<Longrightarrow> P (thread_step gen i c)"
    and "\<And>t c. P c \<Longrightarrow> P (c\<lparr>now := t\<rparr>)"
    and "\<And>ok c. P c \<Longrightarrow> P (snd (start ok c))"
    and "\<And>c. P c \<Longrightarrow> P (c\<lparr>running := False\<rparr>)"
    and "\<And>c. P c \<Longrightarrow> P (base_stop (set_property ''connected'' (VBool False) c))"
    and "\<And>t l c. P c \<Longrightarrow> P (snd (start_exposure t l c))"
    and "\<And>c. P c \<Longrightarrow> P (snd (abort_exposure c))"
    and "\<And>e t c. P c \<Longrightarrow> P (snd (set_cooler e t c))"
  shows "P (execs gen parse as c)"
  using assms(1)
proof (induction as arbitrary: c)
  case Nil
  then show ?case by simp
next
  case (Cons a as)
  have "P (exec gen parse a c)"
    using Cons.prems assms(2-) by (rule exec_invariant)
  then show ?case using Cons.IH by simp
qed

section \<open>Exposure control\<close>




section \<open>The dither cursor\<close>

lemma auto_dither_in_range:
  assumes "0 \<le> dither_index g" and "dither_index g < int (length (dither_sequence g))"
  shows "auto_dither g =
     (Returned (dither_index g),
      g\<lparr>dither_index := (dither_index g + 1) mod int (length (dither_sequence g)),
        dither_calls := dither_calls g @ [(dither_sequence g ! nat (dither_index g), True)]\<rparr>)"
  using assms by (auto simp: auto_dither_def list_getitem_def dither_def)

text \<open>
  C6. A guider whose dither sequence has five elements and whose cursor is at 0: seven
  consecutive calls of \<^verbatim>\<open>auto_dither\<close> read the sequence at the indices 0, 1, 2, 3, 4, 0, 1 in
  that order, pass those amounts to \<^verbatim>\<open>dither\<close>, and leave the cursor at 2.
\<close>

theorem dither_cursor_circular:
  assumes "length (dither_sequence g) = 5" and "dither_index g = 0"
  shows "fst (dither_run 7 g) = [0, 1, 2, 3, 4, 0, 1] \<and>
         dither_index (snd (dither_run 7 g)) = 2 \<and>
         dither_calls (snd (dither_run 7 g)) =
           dither_calls g @ map (\<lambda>i. (dither_sequence g ! i, True)) [0, 1, 2, 3, 4, 0, 1]"
  using assms by (simp add: eval_nat_numeral auto_dither_in_range)

theorem dither_cursor_circular_witness:
  "length (dither_sequence PiGuider_init) = 5 \<and> dither_index PiGuider_init = 0 \<and>
   fst (dither_run 7 PiGuider_init) = [0, 1, 2, 3, 4, 0, 1] \<and>
   map fst (dither_calls (snd (dither_run 7 PiGuider_init))) = [3 / 2, 2, 5 / 2, 2, 3 / 2, 3 / 2, 2]"
proof -
  have l: "length (dither_sequence PiGuider_init) = 5" and i: "dither_index PiGuider_init = 0"
    by (simp_all add: PiGuider_init_def)
  show ?thesis
    using l i dither_cursor_circular [OF l i] by (simp add: PiGuider_init_def)
qed


section \<open>Cooling\<close>

definition cooling_safe :: "camera \<Rightarrow> bool" where
  "cooling_safe c =
     (0 \<le> cooler_power c \<and> cooler_power c \<le> 100 \<and> - 30 \<le> cooler_temp c \<and> cooler_temp c \<le> 50)"

lemma update_body_power: "0 \<le> cooler_power (update_body c) \<and> cooler_power (update_body c) \<le> 100"
  by (simp add: update_body_def set_property_def Let_def)

lemma update_body_target: "cooler_temp (update_body c) = cooler_temp c"
  by (simp add: update_body_def set_property_def Let_def)

lemma set_cooler_target:
  assumes "- 30 \<le> cooler_temp c" and "cooler_temp c \<le> 50"
  shows "- 30 \<le> cooler_temp (snd (set_cooler e t c)) \<and> cooler_temp (snd (set_cooler e t c)) \<le> 50"
  using assms
  by (auto simp: set_cooler_def set_property_def send_event_def Let_def split: option.splits)

lemma set_cooler_power: "cooler_power (snd (set_cooler e t c)) = cooler_power c"
  by (auto simp: set_cooler_def set_property_def send_event_def Let_def split: option.splits)

lemma thread_step_cooling_safe: "cooling_safe c \<Longrightarrow> cooling_safe (thread_step gen i c)"
  using update_body_power [of "c\<lparr>now := max (now c) (wake (threads c ! i))\<rparr>"]
  by (auto simp: cooling_safe_def thread_step_def update_wait_def exposure_begin_def exposure_loop_def
        exposure_finish_def set_thread_def send_event_def set_property_def update_body_target Let_def
      split: pc.splits sum.splits)

lemma execs_cooling_safe:
  assumes "cooling_safe c"
  shows "cooling_safe (execs gen parse as c)"
  using assms
proof (rule execs_invariant)
  show "cooling_safe (thread_step gen i c)" if "cooling_safe c" for i c
    using that by (rule thread_step_cooling_safe)
  show "cooling_safe (snd (set_cooler e t c))" if "cooling_safe c" for e t c
    using that set_cooler_target [of c e t] by (simp add: cooling_safe_def set_cooler_power)
qed (auto simp: cooling_safe_def start_def base_start_def base_stop_def set_property_def spawn_def
       start_exposure_def abort_exposure_def send_event_def Let_def)

definition cooled_camera :: camera where
  "cooled_camera =
     execs gen_ok parse_none [Start True, Set_Cooler (VBool True) (VFloat (- 10)), Sleep 2]
       (init ''cam'')"

lemma cooled_camera_reachable: "reachable gen_ok parse_none cooled_camera"
  unfolding reachable_def cooled_camera_def by blast

lemma cooled_camera_values:
  "cooler_power cooled_camera = 100 \<and> sensor_temp cooled_camera = 18 \<and>
   cooler_temp cooled_camera = - 10"
  by (simp add: cooled_camera_def evals start_def base_start_def set_cooler_def py_int_def)

text \<open>
  C5. In every state a camera can reach, the drive power lies in [0, 100] and the stored
  target temperature in [-30, 50]; the power after one more cooling tick and the target after
  one more call of \<^verbatim>\<open>set_cooler\<close>, whatever enabled flag and temperature the caller passes
  (a number, nothing, or a value that makes the call raise), lie in the same ranges.
\<close>

theorem cooling_bounds:
  assumes "reachable gen parse c"
  shows "cooling_safe c \<and>
         0 \<le> cooler_power (update_body c) \<and> cooler_power (update_body c) \<le> 100 \<and>
         - 30 \<le> cooler_temp (snd (set_cooler e t c)) \<and>
         cooler_temp (snd (set_cooler e t c)) \<le> 50"
proof -
  from assms obtain dev as where c: "c = execs gen parse as (init dev)"
    unfolding reachable_def by blast
  have "cooling_safe (init dev)" by (simp add: cooling_safe_def init_def)
  then have safe: "cooling_safe c" unfolding c by (rule execs_cooling_safe)
  then have "- 30 \<le> cooler_temp c" and "cooler_temp c \<le> 50"
    by (simp_all add: cooling_safe_def)
  then have "- 30 \<le> cooler_temp (snd (set_cooler e t c)) \<and>
             cooler_temp (snd (set_cooler e t c)) \<le> 50"
    by (rule set_cooler_target)
  then show ?thesis using safe update_body_power [of c] by simp
qed

theorem cooling_bounds_witness:
  "reachable gen_ok parse_none cooled_camera \<and>
   cooler_power cooled_camera = 100 \<and>
   cooler_power (update_body cooled_camera) = 100 \<and>
   cooler_temp (snd (set_cooler (VBool True) (VFloat (- 273)) cooled_camera)) = - 30 \<and>
   cooler_temp (snd (set_cooler (VBool True) (VInt 1000) cooled_camera)) = 50 \<and>
   cooling_safe cooled_camera"
proof -
  have p: "cooler_power (update_body cooled_camera) = 100"
    using cooled_camera_values
    by (simp add: update_body_def set_property_def Let_def py_int_def cooled_camera_def evals
          start_def base_start_def set_cooler_def)
  have lo: "cooler_temp (snd (set_cooler (VBool True) (VFloat (- 273)) cooled_camera)) = - 30"
    by (simp add: set_cooler_def set_property_def send_event_def Let_def)
  have hi: "cooler_temp (snd (set_cooler (VBool True) (VInt 1000) cooled_camera)) = 50"
    by (simp add: set_cooler_def set_property_def send_event_def Let_def)
  show ?thesis
    using cooling_bounds [OF cooled_camera_reachable, of "VBool True" "VFloat (- 273)"]
      cooled_camera_reachable cooled_camera_values p lo hi
    by simp
qed


subsection \<open>Cooling down to a target\<close>


















section \<open>Parameter validation in the command handlers\<close>

text \<open>
  C7. What the handlers do on parameters that are missing or invalid. START_EXPOSURE with the
  duration \<^verbatim>\<open>"abc"\<close> or \<^verbatim>\<open>None\<close>: \<^verbatim>\<open>float\<close> raises out of the handler and the response is not
  filled in. SET_COOLER with the temperature \<^verbatim>\<open>"cold"\<close>: \<^verbatim>\<open>min\<close> raises out of the handler after
  \<^verbatim>\<open>cooler_enabled\<close> has been overwritten. CALCULATE_FIELD without a parameter map:
  \<^verbatim>\<open>cmd["parameters"]\<close> raises, where the other handler of the same class, on the same command,
  answers with status ERROR and the message "Missing parameters".
\<close>

theorem handlers_raise_on_invalid_parameters:
  "handle_start_exposure parse_none
       [''name'' \<mapsto> VStr ''START_EXPOSURE'',
        ''parameters'' \<mapsto> VDict [(''duration'', VStr ''abc'')]] response c =
     (Raised ValueError, response, c) \<and>
   handle_start_exposure parse
       [''name'' \<mapsto> VStr ''START_EXPOSURE'',
        ''parameters'' \<mapsto> VDict [(''duration'', VNone)]] response c =
     (Raised TypeError, response, c) \<and>
   handle_set_cooler
       [''name'' \<mapsto> VStr ''SET_COOLER'',
        ''parameters'' \<mapsto> VDict [(''enabled'', VBool True), (''temperature'', VStr ''cold'')]]
       response c =
     (Raised TypeError, response, c\<lparr>cooler_enabled := VBool True\<rparr>) \<and>
   handle_calculate_field r1 r2 [''name'' \<mapsto> VStr ''CALCULATE_FIELD''] response t =
     (Raised (KeyError ''parameters''), response, t) \<and>
   handle_custom_command fmt [''name'' \<mapsto> VStr ''CUSTOM_COMMAND''] response t =
     (Returned (), error_response response ''Missing parameters'', t)"
  by (simp add: handle_start_exposure_def handle_set_cooler_def handle_calculate_field_def
        handle_custom_command_def parameters_missing_def dict_getitem_def parse_none_def
        set_cooler_def)


section \<open>Availability of the image\<close>

text \<open>The number of EXPOSURE_COMPLETE events the camera has emitted; the cameras that have
  emitted more than \<open>n\<close> of them, or \<open>n\<close> and hold no ready image.\<close>

definition completions :: "camera \<Rightarrow> nat" where
  "completions c = length (filter (\<lambda>e. fst e = ''EXPOSURE_COMPLETE'') (events c))"


lemma completions_simps [simp]:
  "completions (c\<lparr>now := t\<rparr>) = completions c"
  "completions (c\<lparr>is_exposing := b\<rparr>) = completions c"
  "completions (c\<lparr>image_ready := b\<rparr>) = completions c"
  "completions (c\<lparr>image_data := d\<rparr>) = completions c"
  "completions (set_thread i th c) = completions c"
  "completions (set_property k v c) = completions c"
  "completions (update_body c) = completions c"
  "completions (update_wait i th c) = completions c"
  "completions (send_event name payload c) =
     (if name = ''EXPOSURE_COMPLETE'' then Suc (completions c) else completions c)"
  by (simp_all add: completions_def set_thread_def set_property_def update_body_def
        update_wait_def send_event_def Let_def)

lemma image_ready_simps [simp]:
  "image_ready (c\<lparr>now := t\<rparr>) = image_ready c"
  "image_ready (set_thread i th c) = image_ready c"
  "image_ready (set_property k v c) = image_ready c"
  "image_ready (update_body c) = image_ready c"
  "image_ready (update_wait i th c) = image_ready c"
  "image_ready (send_event name payload c) = image_ready c"
  by (simp_all add: set_thread_def set_property_def update_body_def
        update_wait_def send_event_def Let_def)
















section \<open>Stopping a device\<close>



















section \<open>A task that outlives the join\<close>










section \<open>An exposure that runs to its end\<close>





text \<open>The EXPOSURE_COMPLETE events of a camera, and the event a completed exposure emits.\<close>

definition complete_events :: "camera \<Rightarrow> event list" where
  "complete_events c = filter (\<lambda>e. fst e = ''EXPOSURE_COMPLETE'') (events c)"

definition completion_event :: "real \<Rightarrow> real \<Rightarrow> pyval \<Rightarrow> int \<Rightarrow> int \<Rightarrow> event" where
  "completion_event t d l w h =
     (''EXPOSURE_COMPLETE'',
      [(''timestamp'', VTime t), (''exposure_time'', VFloat d), (''is_light'', l),
       (''image_size'', VDict [(''width'', VInt w), (''height'', VInt h)])])"




















section \<open>Aborting an exposure\<close>

text \<open>An exposure of two time units, aborted after 1.6; a new exposure of five time units
  is started 0.1 later, before the thread of the first one wakes again at 2.0.\<close>

definition abort_restart :: "action list" where
  "abort_restart =
     [Start_Exposure 2 (VBool True), Sleep (16 / 10), Abort_Exposure, Sleep (1 / 10),
      Start_Exposure 5 (VBool True), Sleep (64 / 10)]"

text \<open>The abort itself: the flag and the property are cleared at once and one
  EXPOSURE_ABORTED event is emitted; nothing else changes.\<close>

lemma abort_exposure_exposing:
  assumes "is_exposing c"
  shows "abort_exposure c =
           (True,
            c\<lparr>is_exposing := False, props := (props c)(''exposing'' \<mapsto> VBool False),
              events := events c @
                [(''EXPOSURE_ABORTED'',
                  [(''timestamp'', VTime (now c)), (''exposure_time'', VFloat (exposure_time c))])]\<rparr>)"
  using assms
  by (simp add: abort_exposure_def set_property_def send_event_def get_iso_timestamp_def Let_def)

text \<open>
  C2. The aborted exposure completes all the same. When its thread wakes at 2.0 it finds
  \<open>is_exposing\<close> true again, set by the second \<^verbatim>\<open>start_exposure\<close>, takes its own time as
  elapsed, reads out, stores an image, sets \<open>image_ready\<close> and emits READING_OUT and
  EXPOSURE_COMPLETE with its exposure time 2, after the EXPOSURE_ABORTED event. It also clears
  \<open>is_exposing\<close>, so the thread of the second exposure ends at its next wake without an
  event: both threads have ended and the only completion is that of the aborted job.
\<close>

theorem aborted_exposure_completes:
  "map fst (events (execs gen_ok parse_none abort_restart (init ''cam''))) =
     [''EXPOSURE_STARTED'', ''EXPOSURE_PROGRESS'', ''EXPOSURE_PROGRESS'', ''EXPOSURE_PROGRESS'',
      ''EXPOSURE_PROGRESS'', ''EXPOSURE_ABORTED'', ''EXPOSURE_STARTED'', ''EXPOSURE_PROGRESS'',
      ''READING_OUT'', ''EXPOSURE_PROGRESS'', ''EXPOSURE_PROGRESS'', ''EXPOSURE_COMPLETE''] \<and>
   complete_events (execs gen_ok parse_none abort_restart (init ''cam'')) =
     [completion_event 3 2 (VBool True) 1936 1096] \<and>
   image_ready (execs gen_ok parse_none abort_restart (init ''cam'')) \<and>
   \<not> is_exposing (execs gen_ok parse_none abort_restart (init ''cam'')) \<and>
   map pc (threads (execs gen_ok parse_none abort_restart (init ''cam''))) = [Done, Done] \<and>
   now (execs gen_ok parse_none abort_restart (init ''cam'')) = 81 / 10"
  by (simp add: abort_restart_def complete_events_def completion_event_def evals)


end
